theory Spec2Isabelle
  imports Main
begin

section \<open>The regular expressions of \<open>terraform_parser_openai.py\<close>\<close>

text \<open>
  \<open>TerraformParser.parse_terraform_file\<close> finds declarations with two regular
  expressions and \<open>re.finditer\<close>. Python's \<open>re\<close> is a backtracking matcher: a
  greedy quantifier first takes the longest run it can and gives characters back one at a
  time until the rest of the pattern matches. The fragment the two patterns use is
  modelled here with exactly that search order: literals, the classes \<open>\s\<close> and
  \<open>[^c]\<close>, the greedy quantifiers \<open>+\<close> and \<open>*\<close> on a class, and a capture group
  around \<open>class+\<close>.

  A text is a \<open>string\<close>; a character stands for the code point of the same number
  (0 to 255).
\<close>

definition dquote :: char where
  "dquote = CHR 0x22"

definition is_space :: "char \<Rightarrow> bool" where
  \<comment> \<open>\<open>\s\<close> on a \<open>str\<close> pattern: the code points Python calls whitespace, below 256.\<close>
  "is_space c =
     (let n = (of_char c :: nat) in (9 \<le> n \<and> n \<le> 13) \<or> (28 \<le> n \<and> n \<le> 32) \<or> n = 133 \<or> n = 160)"

datatype cls = Space | NotChar char

fun in_cls :: "cls \<Rightarrow> char \<Rightarrow> bool" where
  "in_cls Space c = is_space c"
| "in_cls (NotChar x) c = (c \<noteq> x)"

datatype item = Lit string | Plus cls | Star cls | GroupPlus cls

definition run_length :: "cls \<Rightarrow> string \<Rightarrow> nat" where
  "run_length c s = length (takeWhile (in_cls c) s)"

fun first_some :: "('a \<Rightarrow> 'b option) \<Rightarrow> 'a list \<Rightarrow> 'b option" where
  "first_some f [] = None"
| "first_some f (x # xs) = (case f x of Some y \<Rightarrow> Some y | None \<Rightarrow> first_some f xs)"

text \<open>
  \<open>match_items p s\<close> matches the pattern \<open>p\<close> at the start of \<open>s\<close> and returns the
  captured groups and the text left after the match. A quantifier tries the repeat
  counts from the longest run down to its minimum, and the first count for which the
  rest of the pattern matches wins.
\<close>

fun match_items :: "item list \<Rightarrow> string \<Rightarrow> (string list \<times> string) option" where
  "match_items [] s = Some ([], s)"
| "match_items (Lit l # p) s =
     (if take (length l) s = l then match_items p (drop (length l) s) else None)"
| "match_items (Plus c # p) s =
     first_some (\<lambda>k. match_items p (drop k s)) (rev [1..<Suc (run_length c s)])"
| "match_items (Star c # p) s =
     first_some (\<lambda>k. match_items p (drop k s)) (rev [0..<Suc (run_length c s)])"
| "match_items (GroupPlus c # p) s =
     first_some
       (\<lambda>k. map_option (\<lambda>(gs, r). (take k s # gs, r)) (match_items p (drop k s)))
       (rev [1..<Suc (run_length c s)])"

text \<open>A match object: where the match starts and ends, and its numbered groups.\<close>

record match =
  span_start :: nat
  span_end :: nat
  groups :: "string list"

text \<open>
  \<open>re.finditer\<close>: the matches from left to right, none overlapping another. After a
  match the search goes on where the match ended; where nothing matches it moves one
  character on. (After an empty match it moves one character on as well; neither
  pattern of the parser matches the empty text.)
\<close>

function finditer_from :: "item list \<Rightarrow> nat \<Rightarrow> string \<Rightarrow> match list" where
  "finditer_from p pos s =
     (case match_items p s of
        Some (gs, r) \<Rightarrow>
          \<lparr>span_start = pos, span_end = pos + (length s - length r), groups = gs\<rparr> #
            (if length r < length s then finditer_from p (pos + (length s - length r)) r
             else if s = [] then [] else finditer_from p (Suc pos) (tl s))
      | None \<Rightarrow> (if s = [] then [] else finditer_from p (Suc pos) (tl s)))"
  by pat_completeness auto
termination
  by (relation "measure (\<lambda>(p, pos, s). length s)") auto

definition finditer :: "item list \<Rightarrow> string \<Rightarrow> match list" where
  "finditer p s = finditer_from p 0 s"

text \<open>
  \<open>resource\s+"([^"]+)"\s+"([^"]+)"\<close> and
  \<open>module\s+"([^"]+)"\s+{[^}]*source\s+=\s+"([^"]+)"\<close>. The brace after \<open>\s+\<close> opens
  no repeat count, so Python reads it as a literal.
\<close>

definition resource_pattern :: "item list" where
  "resource_pattern =
     [Lit ''resource'', Plus Space, Lit [dquote], GroupPlus (NotChar dquote), Lit [dquote],
      Plus Space, Lit [dquote], GroupPlus (NotChar dquote), Lit [dquote]]"

definition module_pattern :: "item list" where
  "module_pattern =
     [Lit ''module'', Plus Space, Lit [dquote], GroupPlus (NotChar dquote), Lit [dquote],
      Plus Space, Lit ''{'', Star (NotChar (CHR ''}'')),
      Lit ''source'', Plus Space, Lit ''='', Plus Space,
      Lit [dquote], GroupPlus (NotChar dquote), Lit [dquote]]"

section \<open>The parser\<close>

record TerraformResource =
  resource_type :: string
  resource_name :: string
  resource_id :: string
  file_path :: string
  is_module :: bool
  module_source :: "string option"

text \<open>
  What the parser sees of the world: \<open>open(file_path).read()\<close> gives the text of a file
  or raises (\<open>Inl\<close> carries \<open>str(e)\<close>), \<open>glob.glob\<close> gives the paths a pattern finds, and
  \<open>print\<close> appends a line to the standard output.
\<close>

record world =
  read_file :: "string \<Rightarrow> string + string"
  glob :: "string \<Rightarrow> string list"
  stdout :: "string list"

datatype exn = IndexError | OSError string

fun str_exn :: "exn \<Rightarrow> string" where
  "str_exn IndexError = ''no such group''"
| "str_exn (OSError msg) = msg"

definition print :: "string \<Rightarrow> world \<Rightarrow> world" where
  "print line w = w\<lparr>stdout := stdout w @ [line]\<rparr>"

definition group :: "match \<Rightarrow> nat \<Rightarrow> exn + string" where
  \<comment> \<open>\<open>match.group(n)\<close> for a numbered group, \<open>n \<ge> 1\<close>; a group the pattern lacks raises.\<close>
  "group m n = (if 1 \<le> n \<and> n \<le> length (groups m) then Inr (groups m ! (n - 1)) else Inl IndexError)"

fun split_from :: "char \<Rightarrow> string \<Rightarrow> string \<Rightarrow> string list" where
  \<comment> \<open>\<open>str.split(sep)\<close> for a separator of one character; \<open>cur\<close> is the part being read.\<close>
  "split_from sep cur [] = [cur]"
| "split_from sep cur (x # xs) =
     (if x = sep then cur # split_from sep [] xs else split_from sep (cur @ [x]) xs)"

definition split :: "string \<Rightarrow> char \<Rightarrow> string list" where
  "split s sep = split_from sep [] s"

definition module_type_of :: "string \<Rightarrow> string" where
  \<comment> \<open>\<open>source_parts[-2] if len(source_parts) >= 2 else module_source\<close>\<close>
  "module_type_of source =
     (let source_parts = split source (CHR ''/'')
      in if length source_parts \<ge> 2 then source_parts ! (length source_parts - 2) else source)"

definition resource_of_match :: "string \<Rightarrow> match \<Rightarrow> exn + TerraformResource" where
  "resource_of_match path m =
     (case group m 1 of
        Inl e \<Rightarrow> Inl e
      | Inr rtype \<Rightarrow>
          (case group m 2 of
             Inl e \<Rightarrow> Inl e
           | Inr rname \<Rightarrow>
               Inr \<lparr>resource_type = rtype, resource_name = rname,
                    resource_id = rtype @ ''.'' @ rname, file_path = path,
                    is_module = False, module_source = None\<rparr>))"

definition module_of_match :: "string \<Rightarrow> match \<Rightarrow> exn + TerraformResource" where
  "module_of_match path m =
     (case group m 1 of
        Inl e \<Rightarrow> Inl e
      | Inr mname \<Rightarrow>
          (case group m 2 of
             Inl e \<Rightarrow> Inl e
           | Inr msource \<Rightarrow>
               Inr \<lparr>resource_type = module_type_of msource, resource_name = mname,
                    resource_id = ''module.'' @ mname, file_path = path,
                    is_module = True, module_source = Some msource\<rparr>))"

text \<open>
  A \<open>for\<close> loop that appends one record per match. An exception leaves the loop with
  the records appended so far, as the \<open>try\<close> block of the source does.
\<close>

fun append_each ::
  "(match \<Rightarrow> exn + TerraformResource) \<Rightarrow> match list \<Rightarrow> TerraformResource list \<Rightarrow>
   TerraformResource list \<times> exn option" where
  "append_each f [] resources = (resources, None)"
| "append_each f (m # ms) resources =
     (case f m of
        Inl e \<Rightarrow> (resources, Some e)
      | Inr r \<Rightarrow> append_each f ms (resources @ [r]))"

definition extract_records :: "string \<Rightarrow> string \<Rightarrow> TerraformResource list \<times> exn option" where
  \<comment> \<open>The \<open>try\<close> block after the file is read: the resource loop, then the module loop.\<close>
  "extract_records path content =
     (case append_each (resource_of_match path) (finditer resource_pattern content) [] of
        (resources, Some e) \<Rightarrow> (resources, Some e)
      | (resources, None) \<Rightarrow>
          append_each (module_of_match path) (finditer module_pattern content) resources)"

definition error_line :: "string \<Rightarrow> string \<Rightarrow> string" where
  "error_line path msg = ''Error parsing file '' @ path @ '': '' @ msg"

definition parse_terraform_file :: "world \<Rightarrow> string \<Rightarrow> TerraformResource list \<times> world" where
  "parse_terraform_file w path =
     (case read_file w path of
        Inl msg \<Rightarrow> ([], print (error_line path (str_exn (OSError msg))) w)
      | Inr content \<Rightarrow>
          (case extract_records path content of
             (resources, Some e) \<Rightarrow> (resources, print (error_line path (str_exn e)) w)
           | (resources, None) \<Rightarrow> (resources, w)))"

section \<open>The scan of a project\<close>

record TerraformProjectResources =
  resources :: "TerraformResource list"
  resource_count :: int
  resource_types :: "string \<rightharpoonup> int"

definition os_path_join :: "string \<Rightarrow> string \<Rightarrow> string" where
  \<comment> \<open>\<open>posixpath.join\<close> of two components\<close>
  "os_path_join a b =
     (if b \<noteq> [] \<and> hd b = CHR ''/'' then b
      else if a = [] \<or> last a = CHR ''/'' then a @ b
      else a @ ''/'' @ b)"

definition terraform_files :: "world \<Rightarrow> string \<Rightarrow> string list" where
  "terraform_files w terraform_directory =
     concat (map (\<lambda>extension. glob w (os_path_join (os_path_join terraform_directory ''**'') extension))
       [''*.tf'', ''*.tf.json''])"

fun parse_files ::
  "world \<Rightarrow> string list \<Rightarrow> TerraformResource list \<Rightarrow> TerraformResource list \<times> world" where
  "parse_files w [] all_resources = (all_resources, w)"
| "parse_files w (tf_file # fs) all_resources =
     (case parse_terraform_file w tf_file of
        (rs, w') \<Rightarrow> parse_files w' fs (all_resources @ rs))"

fun count_types :: "TerraformResource list \<Rightarrow> (string \<rightharpoonup> int) \<Rightarrow> (string \<rightharpoonup> int)" where
  "count_types [] types = types"
| "count_types (r # rs) types =
     count_types rs
       (case types (resource_type r) of
          Some n \<Rightarrow> types(resource_type r \<mapsto> n + 1)
        | None \<Rightarrow> types(resource_type r \<mapsto> 1))"

text \<open>
  \<open>analyze_terraform_project\<close> from the point where it scans the directory. (Before
  that it builds the language model client, the agent, the task and the crew, which the
  scan never uses.) It returns \<open>list(set(...))\<close>, whose order Python leaves open: the
  model returns the set, beside the \<open>TerraformProjectResources\<close> object the function
  builds and the world it leaves.
\<close>

record analysis =
  project_resources :: TerraformProjectResources
  returned :: "string set"
  world_after :: world

definition analyze_terraform_project :: "world \<Rightarrow> string \<Rightarrow> analysis" where
  "analyze_terraform_project w terraform_directory =
     (case parse_files w (terraform_files w terraform_directory) [] of
        (all_resources, w') \<Rightarrow>
          \<lparr>project_resources =
             \<lparr>resources = all_resources,
              resource_count = int (length all_resources),
              resource_types = count_types all_resources Map.empty\<rparr>,
           returned = set (map resource_type all_resources),
           world_after = w'\<rparr>)"

section \<open>Auxiliary definitions for the proofs\<close>

text \<open>The number of capture groups of a pattern.\<close>

fun n_groups :: "item list \<Rightarrow> nat" where
  "n_groups [] = 0"
| "n_groups (GroupPlus c # p) = Suc (n_groups p)"
| "n_groups (i # p) = n_groups p"

text \<open>
  The tail of the module pattern, \<open>source\s+=\s+"([^"]+)"\<close>: what the pattern looks
  for after the opening brace and the run \<open>[^}]*\<close>.
\<close>

definition source_assignment :: "item list" where
  "source_assignment =
     [Lit ''source'', Plus Space, Lit ''='', Plus Space,
      Lit [dquote], GroupPlus (NotChar dquote), Lit [dquote]]"

definition quoted :: "string \<Rightarrow> string" where
  "quoted s = dquote # s @ [dquote]"

section \<open>Example inputs\<close>

text \<open>
  A project of two files: \<open>infra/main.tf\<close> declares a bucket and a module,
  \<open>infra/data.tf\<close> a second bucket.
\<close>

definition main_tf :: string where
  "main_tf = ''resource '' @ quoted ''aws_s3_bucket'' @ '' '' @ quoted ''logs'' @ '' {}'' @ [CHR 0x0A] @
     ''module '' @ quoted ''vpc'' @ '' { source = '' @ quoted ''terraform-aws-modules/vpc/aws'' @ '' }''"

definition data_tf :: string where
  "data_tf = ''resource '' @ quoted ''aws_s3_bucket'' @ '' '' @ quoted ''data'' @ '' {}''"

definition demo_world :: world where
  "demo_world =
     \<lparr>read_file = (\<lambda>path.
        if path = ''infra/main.tf'' then Inr main_tf
        else if path = ''infra/data.tf'' then Inr data_tf
        else Inl ''[Errno 2] No such file or directory''),
      glob = (\<lambda>pattern. if pattern = ''infra/**/*.tf'' then [''infra/main.tf'', ''infra/data.tf''] else []),
      stdout = []\<rparr>"

text \<open>
  The same project with a third file that cannot be read, and a directory in which no
  file matches.
\<close>

definition locked_world :: world where
  "locked_world =
     \<lparr>read_file = (\<lambda>path.
        if path = ''infra/main.tf'' then Inr main_tf
        else if path = ''infra/data.tf'' then Inr data_tf
        else if path = ''infra/locked.tf'' then Inl ''[Errno 13] Permission denied''
        else Inl ''[Errno 2] No such file or directory''),
      glob = (\<lambda>pattern.
        if pattern = ''infra/**/*.tf'' then [''infra/main.tf'', ''infra/locked.tf'', ''infra/data.tf'']
        else []),
      stdout = []\<rparr>"

definition variables_hcl :: string where
  "variables_hcl = ''variable '' @ quoted ''region'' @ '' {}''"

definition bare_world :: world where
  "bare_world =
     \<lparr>read_file = (\<lambda>path.
        if path = ''infra/variables.hcl'' then Inr variables_hcl
        else Inl ''[Errno 2] No such file or directory''),
      glob = (\<lambda>pattern. []),
      stdout = []\<rparr>"

text \<open>
  Texts of one file: a declaration with its name missing before a complete one, a
  declaration whose name is never closed before a complete one, and the two example
  files one after the other.
\<close>

definition newline :: char where
  "newline = CHR 0x0A"

definition malformed_tf :: string where
  "malformed_tf = ''resource '' @ quoted ''aws_s3_bucket'' @ '' {}'' @ [newline] @ data_tf"

definition swallowed_tf :: string where
  "swallowed_tf =
     ''resource '' @ quoted ''aws_instance'' @ '' '' @ [dquote] @ ''web'' @ [newline] @
     ''resource '' @ quoted ''aws_s3_bucket'' @ '' '' @ quoted ''logs'' @ '' {}''"

definition stacked_tf :: string where
  "stacked_tf = main_tf @ [newline] @ data_tf"

definition one_file_world :: "string \<Rightarrow> world" where
  "one_file_world content =
     \<lparr>read_file = (\<lambda>path.
        if path = ''infra/main.tf'' then Inr content
        else Inl ''[Errno 2] No such file or directory''),
      glob = (\<lambda>pattern. if pattern = ''infra/**/*.tf'' then [''infra/main.tf''] else []),
      stdout = []\<rparr>"



definition unspaced_body :: string where
  "unspaced_body =
     '' source='' @ quoted ''terraform-aws-modules/vpc/aws'' @ '' }'' @ [newline] @
     ''module '' @ quoted ''db'' @ '' { source = '' @ quoted ''acme/db/aws'' @ '' }''"

definition unspaced_tf :: string where
  "unspaced_tf = ''module '' @ quoted ''vpc'' @ '' {'' @ unspaced_body"






definition tags_source_tf :: string where
  "tags_source_tf =
     ''module '' @ quoted ''vpc'' @ '' { source='' @ quoted ''terraform-aws-modules/vpc/aws'' @
     '' tags = { source = '' @ quoted ''terraform'' @ '' } }''"



section \<open>The matcher\<close>

lemma first_some_None_iff: "first_some f xs = None \<longleftrightarrow> (\<forall>x\<in>set xs. f x = None)"
  by (induction xs) (auto split: option.splits)


lemma first_some_top:
  assumes "\<forall>k. a \<le> k \<and> k < n \<longrightarrow> f k = None"
  shows "first_some f (rev [a..<Suc n]) = (if a \<le> n then f n else None)"
proof (cases "a \<le> n")
  case True
  have "first_some f (rev [a..<n]) = None"
    using assms by (simp add: first_some_None_iff)
  with True show ?thesis by (simp split: option.splits)
next
  case False
  then show ?thesis by simp
qed

lemma run_hd:
  assumes "k < run_length c s"
  shows "\<exists>y ys. drop k s = y # ys \<and> in_cls c y"
proof -
  let ?t = "takeWhile (in_cls c) s"
  from assms have k: "k < length ?t" by (simp add: run_length_def)
  have "k < length s" using k length_takeWhile_le [of "in_cls c" s] by simp
  then have d: "drop k s = s ! k # drop (Suc k) s" by (simp add: Cons_nth_drop_Suc)
  have "?t ! k = s ! k" using k by (rule takeWhile_nth)
  moreover have "?t ! k \<in> set ?t" using k by simp
  ultimately have "in_cls c (s ! k)" by (metis set_takeWhileD)
  with d show ?thesis by blast
qed

lemma Lit_fails:
  "\<not> in_cls c x \<Longrightarrow> k < run_length c s \<Longrightarrow> match_items (Lit (x # l) # p) (drop k s) = None"
  using run_hd [of k c s] by auto

lemma match_Plus_Lit:
  assumes "\<not> in_cls c x"
  shows "match_items (Plus c # Lit (x # l) # p) s =
    (if run_length c s = 0 then None
     else match_items (Lit (x # l) # p) (drop (run_length c s) s))"
proof -
  have "\<forall>k. 1 \<le> k \<and> k < run_length c s \<longrightarrow> match_items (Lit (x # l) # p) (drop k s) = None"
    using Lit_fails [OF assms] by blast
  from first_some_top [OF this] show ?thesis
    by (simp del: match_items.simps(2) upt_Suc)
qed

lemma match_GroupPlus_Lit:
  assumes "\<not> in_cls c x"
  shows "match_items (GroupPlus c # Lit (x # l) # p) s =
    (if run_length c s = 0 then None
     else map_option (\<lambda>(gs, r). (take (run_length c s) s # gs, r))
            (match_items (Lit (x # l) # p) (drop (run_length c s) s)))"
proof -
  let ?g = "\<lambda>k. map_option (\<lambda>(gs, r). (take k s # gs, r)) (match_items (Lit (x # l) # p) (drop k s))"
  have "\<forall>k. 1 \<le> k \<and> k < run_length c s \<longrightarrow> ?g k = None"
    using Lit_fails [OF assms] by simp
  from first_some_top [OF this] show ?thesis
    by (simp del: match_items.simps(2) upt_Suc)
qed

lemma run_length_stop:
  "(\<forall>x\<in>set w. in_cls c x) \<Longrightarrow> \<not> in_cls c y \<Longrightarrow> run_length c (w @ y # s) = length w"
  by (simp add: run_length_def takeWhile_tail)

lemma run_length_Nil [simp]: "run_length c [] = 0"
  by (simp add: run_length_def)

lemma match_Lit_Nil [simp]: "match_items (Lit [] # p) s = match_items p s"
  by simp

lemma match_Lit_empty [simp]: "match_items (Lit (x # l) # p) [] = None"
  by simp

lemma match_Lit_step [simp]:
  "match_items (Lit (x # l) # p) (y # s) = (if x = y then match_items (Lit l # p) s else None)"
  by simp

declare match_items.simps(2,3,4,5) [simp del]

lemma not_space_dquote [simp]: "\<not> is_space dquote"
  by (simp add: is_space_def dquote_def)

lemma in_cls_Space: "in_cls Space = is_space"
  by (rule ext) simp

lemma drop_run_length: "drop (run_length c s) s = dropWhile (in_cls c) s"
  by (simp add: run_length_def dropWhile_eq_drop)

lemma take_run_length: "take (run_length c s) s = takeWhile (in_cls c) s"
  by (simp add: run_length_def takeWhile_eq_take [symmetric])

lemma run_length_space_stop:
  "(\<forall>x\<in>set w. is_space x) \<Longrightarrow> \<not> is_space y \<Longrightarrow> run_length Space (w @ y # s) = length w"
  using run_length_stop [of w Space y s] by simp

lemma run_length_not_stop:
  "y \<notin> set w \<Longrightarrow> run_length (NotChar y) (w @ y # s) = length w"
  using run_length_stop [of w "NotChar y" y s] by auto

lemma resource_match:
  assumes "w1 \<noteq> []" "\<forall>c\<in>set w1. is_space c" "T \<noteq> []" "dquote \<notin> set T"
    and "w2 \<noteq> []" "\<forall>c\<in>set w2. is_space c" "N \<noteq> []" "dquote \<notin> set N"
  shows "match_items resource_pattern
           (''resource'' @ w1 @ dquote # T @ dquote # w2 @ dquote # N @ dquote # rest) =
         Some ([T, N], rest)"
  using assms
  by (simp add: resource_pattern_def match_Plus_Lit match_GroupPlus_Lit
      run_length_space_stop run_length_not_stop)

lemma resource_no_match:
  assumes "\<forall>c\<in>set w1. is_space c" "dquote \<notin> set T"
    and "case dropWhile is_space rest of [] \<Rightarrow> True | c # cs \<Rightarrow> c \<noteq> dquote"
  shows "match_items resource_pattern (''resource'' @ w1 @ dquote # T @ dquote # rest) = None"
proof -
  have "match_items (Lit [dquote] # p) (dropWhile is_space rest) = None" for p
  proof (cases "dropWhile is_space rest")
    case Nil
    show ?thesis unfolding Nil by simp
  next
    case (Cons c cs)
    with assms(3) have "c \<noteq> dquote" by simp
    then show ?thesis unfolding Cons by simp
  qed
  then have "match_items (Lit [dquote] # p) (drop (run_length Space rest) rest) = None" for p
    by (simp add: drop_run_length in_cls_Space)
  with assms(1,2) show ?thesis
    by (simp add: resource_pattern_def match_Plus_Lit match_GroupPlus_Lit
      run_length_space_stop run_length_not_stop)
qed

section \<open>The search\<close>

declare finditer_from.simps [simp del]

lemma first_some_SomeD: "first_some f xs = Some y \<Longrightarrow> \<exists>x\<in>set xs. f x = Some y"
  by (induction xs) (auto split: option.splits)

lemma match_items_suffix:
  "match_items p s = Some (gs, r) \<Longrightarrow> \<exists>u. s = u @ r"
proof (induction p arbitrary: s gs r)
  case Nil
  then show ?case by simp
next
  case (Cons i p)
  show ?case
  proof (cases i)
    case (Lit l)
    with Cons.prems have "match_items p (drop (length l) s) = Some (gs, r)"
      by (simp add: match_items.simps split: if_splits)
    from Cons.IH [OF this] obtain u where "drop (length l) s = u @ r" ..
    then have "s = (take (length l) s @ u) @ r"
      by (metis append_assoc append_take_drop_id)
    then show ?thesis ..
  next
    case (Plus c)
    with Cons.prems obtain k where "match_items p (drop k s) = Some (gs, r)"
      by (auto simp: match_items.simps simp del: upt_Suc dest!: first_some_SomeD)
    from Cons.IH [OF this] obtain u where "drop k s = u @ r" ..
    then have "s = (take k s @ u) @ r"
      by (metis append_assoc append_take_drop_id)
    then show ?thesis ..
  next
    case (Star c)
    with Cons.prems obtain k where "match_items p (drop k s) = Some (gs, r)"
      by (auto simp: match_items.simps simp del: upt_Suc dest!: first_some_SomeD)
    from Cons.IH [OF this] obtain u where "drop k s = u @ r" ..
    then have "s = (take k s @ u) @ r"
      by (metis append_assoc append_take_drop_id)
    then show ?thesis ..
  next
    case (GroupPlus c)
    with Cons.prems obtain k gs' where "match_items p (drop k s) = Some (gs', r)"
      by (auto simp: match_items.simps simp del: upt_Suc dest!: first_some_SomeD)
    from Cons.IH [OF this] obtain u where "drop k s = u @ r" ..
    then have "s = (take k s @ u) @ r"
      by (metis append_assoc append_take_drop_id)
    then show ?thesis ..
  qed
qed

lemma match_items_rest:
  assumes "match_items p s = Some (gs, r)"
  shows "length r \<le> length s" and "r = drop (length s - length r) s"
proof -
  from match_items_suffix [OF assms] obtain u where u: "s = u @ r" ..
  then show "length r \<le> length s" by simp
  from u show "r = drop (length s - length r) s" by simp
qed

text \<open>Every match of \<open>finditer\<close> is a match of the pattern at the place where it starts.\<close>

lemma finditer_from_member:
  "m \<in> set (finditer_from p pos s) \<Longrightarrow>
   \<exists>k r. k \<le> length s \<and> span_start m = pos + k \<and>
     match_items p (drop k s) = Some (groups m, r)"
proof (induction p pos s rule: finditer_from.induct)
  case (1 p pos s)
  show ?case
  proof (cases "match_items p s")
    case None
    with "1.prems" have ne: "s \<noteq> []" and "m \<in> set (finditer_from p (Suc pos) (tl s))"
      by (auto simp: finditer_from.simps [of p pos s] split: if_splits)
    from "1.IH"(1) [OF None ne this(2)] obtain k r where
      "k \<le> length (tl s)" "span_start m = Suc pos + k" "match_items p (drop k (tl s)) = Some (groups m, r)"
      by blast
    with ne have "Suc k \<le> length s \<and> span_start m = pos + Suc k \<and>
        match_items p (drop (Suc k) s) = Some (groups m, r)"
      by (cases s) auto
    then show ?thesis by blast
  next
    case (Some a)
    obtain gs r where a: "a = (gs, r)" by (cases a)
    note Some' = Some [unfolded a]
    let ?m0 = "\<lparr>span_start = pos, span_end = pos + (length s - length r), groups = gs\<rparr>"
    consider (hd) "m = ?m0"
      | (adv) "length r < length s" "m \<in> set (finditer_from p (pos + (length s - length r)) r)"
      | (one) "\<not> length r < length s" "s \<noteq> []" "m \<in> set (finditer_from p (Suc pos) (tl s))"
      using "1.prems" Some' by (auto simp: finditer_from.simps [of p pos s] split: if_splits)
    then show ?thesis
    proof cases
      case hd
      with Some' have "0 \<le> length s \<and> span_start m = pos + 0 \<and>
          match_items p (drop 0 s) = Some (groups m, r)" by simp
      then show ?thesis by blast
    next
      case adv
      define j where "j = length s - length r"
      from match_items_rest [OF Some'] have r: "r = drop j s" and le: "j + length r = length s"
        by (auto simp: j_def)
      from "1.IH"(2) [OF Some a [symmetric] adv(1) adv(2)] obtain k r' where
        k: "k \<le> length r" "span_start m = pos + j + k"
          "match_items p (drop k r) = Some (groups m, r')"
        unfolding j_def by blast
      have "drop k r = drop (j + k) s"
        by (subst r) (simp add: add.commute)
      with k le have "j + k \<le> length s \<and> span_start m = pos + (j + k) \<and>
          match_items p (drop (j + k) s) = Some (groups m, r')"
        by simp
      then show ?thesis by blast
    next
      case one
      from "1.IH"(3) [OF Some a [symmetric] one] obtain k r' where
        "k \<le> length (tl s)" "span_start m = Suc pos + k" "match_items p (drop k (tl s)) = Some (groups m, r')"
        by blast
      with one(2) have "Suc k \<le> length s \<and> span_start m = pos + Suc k \<and>
          match_items p (drop (Suc k) s) = Some (groups m, r')"
        by (cases s) auto
      then show ?thesis by blast
    qed
  qed
qed

lemma finditer_from_lower:
  "m \<in> set (finditer_from p pos s) \<Longrightarrow> pos \<le> span_start m"
  using finditer_from_member [of m p pos s] by auto

text \<open>A match at the place where the search stands is reported, and no other match starts there.\<close>

lemma finditer_from_head:
  assumes "match_items p s = Some (gs, r)"
  shows "\<exists>ms. finditer_from p pos s =
      \<lparr>span_start = pos, span_end = pos + (length s - length r), groups = gs\<rparr> # ms \<and>
      (\<forall>m\<in>set ms. pos < span_start m)"
proof -
  let ?m0 = "\<lparr>span_start = pos, span_end = pos + (length s - length r), groups = gs\<rparr>"
  consider (adv) "length r < length s"
    | (one) "\<not> length r < length s" "s \<noteq> []"
    | (nil) "\<not> length r < length s" "s = []"
    by blast
  then show ?thesis
  proof cases
    case adv
    then have "finditer_from p pos s = ?m0 # finditer_from p (pos + (length s - length r)) r"
      using assms by (subst finditer_from.simps) simp
    moreover have "\<forall>m\<in>set (finditer_from p (pos + (length s - length r)) r). pos < span_start m"
      using adv finditer_from_lower [of _ p "pos + (length s - length r)" r] by fastforce
    ultimately show ?thesis by blast
  next
    case one
    then have "finditer_from p pos s = ?m0 # finditer_from p (Suc pos) (tl s)"
      using assms by (subst finditer_from.simps) simp
    moreover have "\<forall>m\<in>set (finditer_from p (Suc pos) (tl s)). pos < span_start m"
      using finditer_from_lower [of _ p "Suc pos" "tl s"] by fastforce
    ultimately show ?thesis by blast
  next
    case nil
    then have "finditer_from p pos s = [?m0]"
      using assms by (subst finditer_from.simps) simp
    then show ?thesis by simp
  qed
qed

text \<open>
  The search reaches a place of the text when no earlier match runs over it; from there
  on it goes as a search started at that place.
\<close>

lemma finditer_from_reach:
  assumes "\<forall>m\<in>set (finditer_from p pos (a @ b)).
      span_start m < pos + length a \<longrightarrow> span_end m \<le> pos + length a"
  shows "\<exists>ms. finditer_from p pos (a @ b) = ms @ finditer_from p (pos + length a) b \<and>
      (\<forall>m\<in>set ms. span_start m < pos + length a)"
  using assms
proof (induction "length a" arbitrary: a pos rule: less_induct)
  case less
  show ?case
  proof (cases a)
    case Nil
    then show ?thesis by simp
  next
    case (Cons x a')
    let ?s = "a @ b"
    have step: "\<exists>ms. finditer_from p (Suc pos) (tl ?s) = ms @ finditer_from p (pos + length a) b \<and>
        (\<forall>m\<in>set ms. span_start m < pos + length a)"
      if sub: "set (finditer_from p (Suc pos) (tl ?s)) \<subseteq> set (finditer_from p pos ?s)"
    proof -
      have "\<forall>m\<in>set (finditer_from p (Suc pos) (a' @ b)).
          span_start m < Suc pos + length a' \<longrightarrow> span_end m \<le> Suc pos + length a'"
        using less.prems sub Cons by auto
      from less.hyps [OF _ this] Cons show ?thesis by simp
    qed
    show ?thesis
    proof (cases "match_items p ?s")
      case None
      with Cons have eq: "finditer_from p pos ?s = finditer_from p (Suc pos) (tl ?s)"
        by (subst finditer_from.simps) simp
      with step show ?thesis by simp
    next
      case (Some res)
      obtain gs r where res: "res = (gs, r)" by (cases res)
      note Some' = Some [unfolded res]
      define j where "j = length ?s - length r"
      let ?m0 = "\<lparr>span_start = pos, span_end = pos + j, groups = gs\<rparr>"
      from match_items_rest [OF Some'] have r: "r = drop j ?s" and le: "j + length r = length ?s"
        by (auto simp: j_def)
      have m0: "?m0 \<in> set (finditer_from p pos ?s)"
        using Some' by (subst finditer_from.simps) (simp add: j_def)
      with less.prems Cons have j: "j \<le> length a" by fastforce
      show ?thesis
      proof (cases "length r < length ?s")
        case True
        then have eq: "finditer_from p pos ?s = ?m0 # finditer_from p (pos + j) r"
          using Some' by (subst finditer_from.simps) (simp add: j_def)
        from True le have j0: "0 < j" by simp
        from r j have r': "r = drop j a @ b" by simp
        have len: "length (drop j a) < length a" using j0 Cons by simp
        have "\<forall>m\<in>set (finditer_from p (pos + j) (drop j a @ b)).
            span_start m < pos + j + length (drop j a) \<longrightarrow> span_end m \<le> pos + j + length (drop j a)"
          using less.prems eq r' j by auto
        from less.hyps [OF len this] obtain ms where
          "finditer_from p (pos + j) r = ms @ finditer_from p (pos + length a) b"
          "\<forall>m\<in>set ms. span_start m < pos + length a"
          using r' j by auto
        with eq Cons have "finditer_from p pos ?s = (?m0 # ms) @ finditer_from p (pos + length a) b \<and>
            (\<forall>m\<in>set (?m0 # ms). span_start m < pos + length a)"
          by simp
        then show ?thesis by blast
      next
        case False
        then have eq: "finditer_from p pos ?s = ?m0 # finditer_from p (Suc pos) (tl ?s)"
          using Some' Cons by (subst finditer_from.simps) (simp add: j_def)
        then have "set (finditer_from p (Suc pos) (tl ?s)) \<subseteq> set (finditer_from p pos ?s)"
          by auto
        from step [OF this] obtain ms where
          "finditer_from p (Suc pos) (tl ?s) = ms @ finditer_from p (pos + length a) b"
          "\<forall>m\<in>set ms. span_start m < pos + length a"
          by blast
        with eq Cons have "finditer_from p pos ?s = (?m0 # ms) @ finditer_from p (pos + length a) b \<and>
            (\<forall>m\<in>set (?m0 # ms). span_start m < pos + length a)"
          by simp
        then show ?thesis by blast
      qed
    qed
  qed
qed

text \<open>Exactly one match starts at a declaration the search reaches.\<close>

lemma finditer_match_at:
  assumes reach: "\<forall>m\<in>set (finditer p (pre @ s)).
      span_start m < length pre \<longrightarrow> span_end m \<le> length pre"
    and hit: "match_items p s = Some (gs, r)"
  shows "filter (\<lambda>m. span_start m = length pre) (finditer p (pre @ s)) =
    [\<lparr>span_start = length pre, span_end = length pre + (length s - length r), groups = gs\<rparr>]"
proof -
  from finditer_from_reach [of p 0 pre s] reach obtain ms where
    ms: "finditer p (pre @ s) = ms @ finditer_from p (length pre) s"
      "\<forall>m\<in>set ms. span_start m < length pre"
    by (auto simp: finditer_def)
  from finditer_from_head [OF hit, of "length pre"] obtain ms' where
    ms': "finditer_from p (length pre) s =
        \<lparr>span_start = length pre, span_end = length pre + (length s - length r), groups = gs\<rparr> # ms'"
      "\<forall>m\<in>set ms'. length pre < span_start m"
    by blast
  have "filter (\<lambda>m. span_start m = length pre) ms = []"
    using ms(2) by (auto simp: filter_empty_conv)
  moreover have "filter (\<lambda>m. span_start m = length pre) ms' = []"
    using ms'(2) by (auto simp: filter_empty_conv)
  ultimately show ?thesis
    by (simp add: ms(1) ms'(1))
qed

lemma finditer_no_match_at:
  assumes "match_items p s = None"
  shows "\<forall>m\<in>set (finditer p (pre @ s)). span_start m \<noteq> length pre"
proof
  fix m assume "m \<in> set (finditer p (pre @ s))"
  from finditer_from_member [OF this [unfolded finditer_def]] obtain k r where
    "span_start m = k" "match_items p (drop k (pre @ s)) = Some (groups m, r)"
    by auto
  with assms show "span_start m \<noteq> length pre" by auto
qed

section \<open>One record for each match\<close>

lemma match_items_groups:
  "match_items p s = Some (gs, r) \<Longrightarrow> length gs = n_groups p"
proof (induction p arbitrary: s gs r)
  case Nil
  then show ?case by simp
next
  case (Cons i p)
  show ?case
  proof (cases i)
    case (Lit l)
    with Cons.prems have "match_items p (drop (length l) s) = Some (gs, r)"
      by (simp add: match_items.simps split: if_splits)
    from Cons.IH [OF this] Lit show ?thesis by simp
  next
    case (Plus c)
    with Cons.prems obtain k where "match_items p (drop k s) = Some (gs, r)"
      by (auto simp: match_items.simps simp del: upt_Suc dest!: first_some_SomeD)
    from Cons.IH [OF this] Plus show ?thesis by simp
  next
    case (Star c)
    with Cons.prems obtain k where "match_items p (drop k s) = Some (gs, r)"
      by (auto simp: match_items.simps simp del: upt_Suc dest!: first_some_SomeD)
    from Cons.IH [OF this] Star show ?thesis by simp
  next
    case (GroupPlus c)
    with Cons.prems obtain k gs' where "match_items p (drop k s) = Some (gs', r)" "gs = take k s # gs'"
      by (auto simp: match_items.simps simp del: upt_Suc dest!: first_some_SomeD)
    from Cons.IH [OF this(1)] this(2) GroupPlus show ?thesis by simp
  qed
qed

lemma finditer_groups:
  "m \<in> set (finditer p s) \<Longrightarrow> length (groups m) = n_groups p"
  using finditer_from_member [of m p 0 s] match_items_groups by (auto simp: finditer_def)

lemma resource_of_match_two:
  "length (groups m) = 2 \<Longrightarrow>
   resource_of_match path m =
     Inr \<lparr>resource_type = groups m ! 0, resource_name = groups m ! 1,
          resource_id = groups m ! 0 @ ''.'' @ groups m ! 1, file_path = path,
          is_module = False, module_source = None\<rparr>"
  by (simp add: resource_of_match_def group_def)

lemma module_of_match_two:
  "length (groups m) = 2 \<Longrightarrow>
   module_of_match path m =
     Inr \<lparr>resource_type = module_type_of (groups m ! 1), resource_name = groups m ! 0,
          resource_id = ''module.'' @ groups m ! 0, file_path = path,
          is_module = True, module_source = Some (groups m ! 1)\<rparr>"
  by (simp add: module_of_match_def group_def)

lemma append_each_total:
  "(\<forall>m\<in>set ms. \<exists>r. f m = Inr r) \<Longrightarrow>
   append_each f ms acc = (acc @ map (\<lambda>m. projr (f m)) ms, None)"
  by (induction ms arbitrary: acc) auto

text \<open>
  Both patterns have two groups, so \<open>group(1)\<close> and \<open>group(2)\<close> never raise: the
  \<open>try\<close> block yields one record for each match, the resources first.
\<close>

lemma extract_records_eq:
  "extract_records path content =
     (map (\<lambda>m. projr (resource_of_match path m)) (finditer resource_pattern content) @
      map (\<lambda>m. projr (module_of_match path m)) (finditer module_pattern content), None)"
proof -
  have r: "\<forall>m\<in>set (finditer resource_pattern content). \<exists>r. resource_of_match path m = Inr r"
    using finditer_groups [of _ resource_pattern content] resource_of_match_two
    by (auto simp: resource_pattern_def)
  have m: "\<forall>m\<in>set (finditer module_pattern content). \<exists>r. module_of_match path m = Inr r"
    using finditer_groups [of _ module_pattern content] module_of_match_two
    by (auto simp: module_pattern_def)
  show ?thesis
    by (simp add: extract_records_def append_each_total [OF r] append_each_total [OF m])
qed

lemma parse_terraform_file_readable:
  "read_file w path = Inr content \<Longrightarrow>
   parse_terraform_file w path = (fst (extract_records path content), w)"
  by (simp add: parse_terraform_file_def extract_records_eq)

lemma parse_terraform_file_unreadable:
  "read_file w path = Inl msg \<Longrightarrow>
   parse_terraform_file w path = ([], print (error_line path msg) w)"
  by (simp add: parse_terraform_file_def)

section \<open>The module pattern\<close>

lemma not_space_punct [simp]: "\<not> is_space (CHR ''{'')" "\<not> is_space (CHR ''='')"
  by (simp_all add: is_space_def)


lemma match_Star_None:
  assumes "\<forall>j. j \<le> run_length c s \<longrightarrow> match_items p (drop j s) = None"
  shows "match_items (Star c # p) s = None"
  using assms by (simp add: match_items.simps first_some_None_iff del: upt_Suc)


lemma module_head_match:
  assumes "w1 \<noteq> []" "\<forall>c\<in>set w1. is_space c" "N \<noteq> []" "dquote \<notin> set N"
    and "w2 \<noteq> []" "\<forall>c\<in>set w2. is_space c"
  shows "match_items module_pattern (''module'' @ w1 @ dquote # N @ dquote # w2 @ CHR ''{'' # body) =
     map_option (\<lambda>(gs, r). (N # gs, r))
       (match_items (Star (NotChar (CHR ''}'')) # source_assignment) body)"
  using assms
  by (simp add: module_pattern_def source_assignment_def match_Plus_Lit match_GroupPlus_Lit
      run_length_space_stop run_length_not_stop)

lemma source_match:
  assumes "w3 \<noteq> []" "\<forall>c\<in>set w3. is_space c" "w4 \<noteq> []" "\<forall>c\<in>set w4. is_space c"
    and "S \<noteq> []" "dquote \<notin> set S"
  shows "match_items source_assignment (''source'' @ w3 @ CHR ''='' # w4 @ dquote # S @ dquote # r) =
     Some ([S], r)"
  using assms
  by (simp add: source_assignment_def match_Plus_Lit match_GroupPlus_Lit
      run_length_space_stop run_length_not_stop)

lemma source_unspaced:
  assumes "\<forall>c\<in>set w3. is_space c" "\<forall>c\<in>set w4. is_space c" "w3 = [] \<or> w4 = []"
  shows "match_items source_assignment (''source'' @ w3 @ CHR ''='' # w4 @ dquote # t) = None"
  using assms
  by (auto simp add: source_assignment_def match_Plus_Lit match_GroupPlus_Lit
      run_length_space_stop run_length_not_stop)


section \<open>The claims\<close>

lemma extract_records_shape:
  assumes "r \<in> set (fst (extract_records path content))"
  shows "(\<exists>t n. r = \<lparr>resource_type = t, resource_name = n, resource_id = t @ ''.'' @ n,
            file_path = path, is_module = False, module_source = None\<rparr>) \<or>
         (\<exists>n src. r = \<lparr>resource_type = module_type_of src, resource_name = n,
            resource_id = ''module.'' @ n, file_path = path, is_module = True,
            module_source = Some src\<rparr>)"
proof -
  from assms consider
    m where "m \<in> set (finditer resource_pattern content)" "r = projr (resource_of_match path m)"
    | m where "m \<in> set (finditer module_pattern content)" "r = projr (module_of_match path m)"
    by (auto simp: extract_records_eq)
  then show ?thesis
  proof cases
    case 1
    from finditer_groups [OF 1(1)] have "length (groups m) = 2"
      by (simp add: resource_pattern_def)
    from resource_of_match_two [OF this] 1(2) show ?thesis by simp
  next
    case 2
    from finditer_groups [OF 2(1)] have "length (groups m) = 2"
      by (simp add: module_pattern_def)
    from module_of_match_two [OF this] 2(2) show ?thesis by simp
  qed
qed

lemma fst_parse_terraform_file:
  "fst (parse_terraform_file w path) =
     (case read_file w path of Inl msg \<Rightarrow> [] | Inr content \<Rightarrow> fst (extract_records path content))"
  by (simp add: parse_terraform_file_def extract_records_eq split: sum.splits)

lemma snd_parse_terraform_file:
  "snd (parse_terraform_file w path) =
     w\<lparr>stdout := stdout w @
       (case read_file w path of Inl msg \<Rightarrow> [error_line path msg] | Inr content \<Rightarrow> [])\<rparr>"
  by (simp add: parse_terraform_file_def extract_records_eq print_def split: sum.splits)

text \<open>
  C6. Every record the extraction produces carries the identifier its kind and names
  determine: \<open>type.name\<close> for a resource, \<open>module.name\<close> for a module. The two
  places that build a record compute the identifier from the same values they store as
  type and name.
\<close>

theorem identifier_derived:
  "\<forall>r\<in>set (fst (parse_terraform_file w path)).
     resource_id r =
       (if is_module r then ''module.'' @ resource_name r
        else resource_type r @ ''.'' @ resource_name r)"
proof
  fix r assume r: "r \<in> set (fst (parse_terraform_file w path))"
  then obtain content where "r \<in> set (fst (extract_records path content))"
    by (auto simp: fst_parse_terraform_file split: sum.splits)
  from extract_records_shape [OF this]
  show "resource_id r =
       (if is_module r then ''module.'' @ resource_name r
        else resource_type r @ ''.'' @ resource_name r)"
    by auto
qed

lemma demo_main_records:
  "fst (parse_terraform_file demo_world ''infra/main.tf'') =
     [\<lparr>resource_type = ''aws_s3_bucket'', resource_name = ''logs'',
       resource_id = ''aws_s3_bucket.logs'', file_path = ''infra/main.tf'',
       is_module = False, module_source = None\<rparr>,
      \<lparr>resource_type = ''vpc'', resource_name = ''vpc'',
       resource_id = ''module.vpc'', file_path = ''infra/main.tf'', is_module = True,
       module_source = Some ''terraform-aws-modules/vpc/aws''\<rparr>]"
  by code_simp

theorem identifier_derived_witness:
  "length (fst (parse_terraform_file demo_world ''infra/main.tf'')) = 2 \<and>
   list_all (\<lambda>r. resource_id r =
       (if is_module r then ''module.'' @ resource_name r
        else resource_type r @ ''.'' @ resource_name r))
     (fst (parse_terraform_file demo_world ''infra/main.tf''))"
proof -
  have "list_all (\<lambda>r. resource_id r =
       (if is_module r then ''module.'' @ resource_name r
        else resource_type r @ ''.'' @ resource_name r))
     (fst (parse_terraform_file demo_world ''infra/main.tf''))"
    using identifier_derived [of demo_world "''infra/main.tf''"]
    by (simp only: list_all_iff)
  moreover have "length (fst (parse_terraform_file demo_world ''infra/main.tf'')) = 2"
    by (simp add: demo_main_records)
  ultimately show ?thesis by (intro conjI)
qed

lemma parse_files_eq:
  "parse_files w fs acc =
     (acc @ concat (map (\<lambda>f. fst (parse_terraform_file w f)) fs),
      w\<lparr>stdout := stdout w @
        concat (map (\<lambda>f. case read_file w f of Inl msg \<Rightarrow> [error_line f msg] | Inr content \<Rightarrow> []) fs)\<rparr>)"
proof (induction fs arbitrary: w acc)
  case Nil
  show ?case by simp
next
  case (Cons f fs)
  obtain rs w' where p: "parse_terraform_file w f = (rs, w')"
    by (cases "parse_terraform_file w f")
  from p have rs: "rs = fst (parse_terraform_file w f)" by simp
  from p have w': "w' = w\<lparr>stdout := stdout w @
       (case read_file w f of Inl msg \<Rightarrow> [error_line f msg] | Inr content \<Rightarrow> [])\<rparr>"
    using snd_parse_terraform_file [of w f] by simp
  have same: "fst (parse_terraform_file w' g) = fst (parse_terraform_file w g)" for g
    by (simp add: fst_parse_terraform_file w')
  have rd: "read_file w' = read_file w" by (simp add: w')
  show ?case
    by (simp add: p Cons.IH same rd) (simp add: rs w')
qed

text \<open>
  C5. A scan processes every file the search found. A file that cannot be opened or read
  prints one error line, contributes no record and leaves the rest of the scan as it
  was: the records of the scan are the records of the files one by one, each as if it
  were parsed alone, and the output is one line for each unreadable file. The scan
  always yields its aggregate.
\<close>

theorem failure_isolated:
  "resources (project_resources (analyze_terraform_project w d)) =
     concat (map (\<lambda>f. fst (parse_terraform_file w f)) (terraform_files w d)) \<and>
   stdout (world_after (analyze_terraform_project w d)) =
     stdout w @ concat (map (\<lambda>f. case read_file w f of Inl msg \<Rightarrow> [error_line f msg] | Inr content \<Rightarrow> [])
       (terraform_files w d)) \<and>
   (\<forall>f msg. read_file w f = Inl msg \<longrightarrow>
      parse_terraform_file w f = ([], w\<lparr>stdout := stdout w @ [error_line f msg]\<rparr>))"
  by (simp add: analyze_terraform_project_def parse_files_eq parse_terraform_file_unreadable print_def)

text \<open>
  C9. Parsing a file a second time, in the world the first run left, yields the same
  list of records in the same order.
\<close>

theorem extraction_repeatable:
  "fst (parse_terraform_file (snd (parse_terraform_file w path)) path) =
   fst (parse_terraform_file w path)"
  by (simp add: fst_parse_terraform_file snd_parse_terraform_file)

text \<open>
  C8. A text in which neither pattern matches yields the empty list of records and no
  error line; a directory in which the search finds no \<open>*.tf\<close> and no
  \<open>*.tf.json\<close> file yields the empty aggregate, with no record, count 0 and the
  empty mapping of types.
\<close>

theorem empty_input:
  "(read_file w path = Inr content \<and> finditer resource_pattern content = [] \<and>
      finditer module_pattern content = [] \<longrightarrow>
    parse_terraform_file w path = ([], w)) \<and>
   (glob w (os_path_join (os_path_join d ''**'') ''*.tf'') = [] \<and>
    glob w (os_path_join (os_path_join d ''**'') ''*.tf.json'') = [] \<longrightarrow>
    analyze_terraform_project w d =
      \<lparr>project_resources = \<lparr>resources = [], resource_count = 0, resource_types = Map.empty\<rparr>,
       returned = {}, world_after = w\<rparr>)"
  by (simp add: parse_terraform_file_readable extract_records_eq analyze_terraform_project_def
      terraform_files_def)

lemma analyze_resources:
  "resources (project_resources (analyze_terraform_project w d)) =
     concat (map (\<lambda>f. fst (parse_terraform_file w f)) (terraform_files w d))"
  by (simp add: analyze_terraform_project_def parse_files_eq)

lemma main_tf_resources:
  "finditer resource_pattern main_tf =
     [\<lparr>span_start = 0, span_end = 31, groups = [''aws_s3_bucket'', ''logs'']\<rparr>]"
  by code_simp

lemma main_tf_modules:
  "finditer module_pattern main_tf =
     [\<lparr>span_start = 35, span_end = 90, groups = [''vpc'', ''terraform-aws-modules/vpc/aws'']\<rparr>]"
  by code_simp

lemma data_tf_resources:
  "finditer resource_pattern data_tf =
     [\<lparr>span_start = 0, span_end = 31, groups = [''aws_s3_bucket'', ''data'']\<rparr>]"
  by code_simp

lemma data_tf_modules: "finditer module_pattern data_tf = []"
  by code_simp

lemma vpc_type: "module_type_of ''terraform-aws-modules/vpc/aws'' = ''vpc''"
  by code_simp

lemma main_tf_records:
  "fst (extract_records path main_tf) =
     [\<lparr>resource_type = ''aws_s3_bucket'', resource_name = ''logs'',
       resource_id = ''aws_s3_bucket.logs'', file_path = path,
       is_module = False, module_source = None\<rparr>,
      \<lparr>resource_type = ''vpc'', resource_name = ''vpc'',
       resource_id = ''module.vpc'', file_path = path, is_module = True,
       module_source = Some ''terraform-aws-modules/vpc/aws''\<rparr>]"
  by (simp add: extract_records_eq main_tf_resources main_tf_modules
      resource_of_match_two module_of_match_two vpc_type)

lemma data_tf_records:
  "fst (extract_records path data_tf) =
     [\<lparr>resource_type = ''aws_s3_bucket'', resource_name = ''data'',
       resource_id = ''aws_s3_bucket.data'', file_path = path,
       is_module = False, module_source = None\<rparr>]"
  by (simp add: extract_records_eq data_tf_resources data_tf_modules resource_of_match_two)

text \<open>
  C4. A directory with two matching files, one declaring the bucket \<open>logs\<close> and the
  module \<open>vpc\<close> with source \<open>terraform-aws-modules/vpc/aws\<close>, the other the bucket
  \<open>data\<close>: the scan yields three records, the counts \<open>aws_s3_bucket: 2\<close> and
  \<open>vpc: 1\<close>, and the set of types \<open>{aws_s3_bucket, vpc}\<close>, whichever file the
  search lists first.
\<close>

theorem two_file_scan:
  assumes files: "terraform_files w d = [f1, f2] \<or> terraform_files w d = [f2, f1]"
    and f1: "read_file w f1 = Inr main_tf"
    and f2: "read_file w f2 = Inr data_tf"
  shows "length (resources (project_resources (analyze_terraform_project w d))) = 3 \<and>
    resource_count (project_resources (analyze_terraform_project w d)) = 3 \<and>
    resource_types (project_resources (analyze_terraform_project w d)) =
      [''aws_s3_bucket'' \<mapsto> 2, ''vpc'' \<mapsto> 1] \<and>
    returned (analyze_terraform_project w d) = {''aws_s3_bucket'', ''vpc''}"
proof -
  have r1: "fst (parse_terraform_file w f1) = fst (extract_records f1 main_tf)"
    by (simp add: fst_parse_terraform_file f1)
  have r2: "fst (parse_terraform_file w f2) = fst (extract_records f2 data_tf)"
    by (simp add: fst_parse_terraform_file f2)
  from files show ?thesis
  proof
    assume a: "terraform_files w d = [f1, f2]"
    have "parse_files w (terraform_files w d) [] =
        (fst (extract_records f1 main_tf) @ fst (extract_records f2 data_tf),
         snd (parse_files w (terraform_files w d) []))"
      by (simp add: parse_files_eq a r1 r2)
    then show ?thesis
      by (auto simp: analyze_terraform_project_def main_tf_records data_tf_records
          split: prod.splits)
  next
    assume a: "terraform_files w d = [f2, f1]"
    have "parse_files w (terraform_files w d) [] =
        (fst (extract_records f2 data_tf) @ fst (extract_records f1 main_tf),
         snd (parse_files w (terraform_files w d) []))"
      by (simp add: parse_files_eq a r1 r2)
    then show ?thesis
      by (auto simp: analyze_terraform_project_def main_tf_records data_tf_records
          split: prod.splits)
  qed
qed

lemma demo_files: "terraform_files demo_world ''infra'' = [''infra/main.tf'', ''infra/data.tf'']"
  by code_simp

theorem two_file_scan_witness:
  "length (resources (project_resources (analyze_terraform_project demo_world ''infra''))) = 3 \<and>
   resource_count (project_resources (analyze_terraform_project demo_world ''infra'')) = 3 \<and>
   resource_types (project_resources (analyze_terraform_project demo_world ''infra'')) =
      [''aws_s3_bucket'' \<mapsto> 2, ''vpc'' \<mapsto> 1] \<and>
   returned (analyze_terraform_project demo_world ''infra'') = {''aws_s3_bucket'', ''vpc''}"
proof (rule two_file_scan [of demo_world "''infra''" "''infra/main.tf''" "''infra/data.tf''"])
  show "terraform_files demo_world ''infra'' = [''infra/main.tf'', ''infra/data.tf''] \<or>
      terraform_files demo_world ''infra'' = [''infra/data.tf'', ''infra/main.tf'']"
    by (simp add: demo_files)
  show "read_file demo_world ''infra/main.tf'' = Inr main_tf"
    by (simp add: demo_world_def)
  show "read_file demo_world ''infra/data.tf'' = Inr data_tf"
    by (simp add: demo_world_def)
qed

lemma locked_files:
  "terraform_files locked_world ''infra'' = [''infra/main.tf'', ''infra/locked.tf'', ''infra/data.tf'']"
  by code_simp

lemma locked_records:
  "map resource_id (concat (map (\<lambda>f. fst (parse_terraform_file locked_world f))
      [''infra/main.tf'', ''infra/locked.tf'', ''infra/data.tf''])) =
   [''aws_s3_bucket.logs'', ''module.vpc'', ''aws_s3_bucket.data'']"
  by (simp add: fst_parse_terraform_file locked_world_def main_tf_records data_tf_records)

theorem failure_isolated_witness:
  "map resource_id (resources (project_resources (analyze_terraform_project locked_world ''infra''))) =
     [''aws_s3_bucket.logs'', ''module.vpc'', ''aws_s3_bucket.data''] \<and>
   stdout (world_after (analyze_terraform_project locked_world ''infra'')) =
     [''Error parsing file infra/locked.tf: [Errno 13] Permission denied''] \<and>
   parse_terraform_file locked_world ''infra/locked.tf'' =
     ([], locked_world\<lparr>stdout :=
        [''Error parsing file infra/locked.tf: [Errno 13] Permission denied'']\<rparr>)"
proof -
  note t = failure_isolated [of locked_world "''infra''"]
  have rd: "read_file locked_world ''infra/locked.tf'' = Inl ''[Errno 13] Permission denied''"
    by (simp add: locked_world_def)
  have out: "stdout locked_world = []"
    by (simp add: locked_world_def)
  from t have "resources (project_resources (analyze_terraform_project locked_world ''infra'')) =
      concat (map (\<lambda>f. fst (parse_terraform_file locked_world f)) (terraform_files locked_world ''infra''))"
    by (rule conjunct1)
  then have a: "map resource_id (resources (project_resources (analyze_terraform_project locked_world ''infra''))) =
     [''aws_s3_bucket.logs'', ''module.vpc'', ''aws_s3_bucket.data'']"
    by (simp only: locked_files locked_records)
  from t have "stdout (world_after (analyze_terraform_project locked_world ''infra'')) =
     stdout locked_world @ concat (map (\<lambda>f. case read_file locked_world f of
        Inl msg \<Rightarrow> [error_line f msg] | Inr content \<Rightarrow> [])
       (terraform_files locked_world ''infra''))"
    by (rule conjunct1 [OF conjunct2])
  then have b: "stdout (world_after (analyze_terraform_project locked_world ''infra'')) =
     [''Error parsing file infra/locked.tf: [Errno 13] Permission denied'']"
    by (simp add: locked_files out) (simp add: locked_world_def error_line_def)
  from t have "\<forall>f msg. read_file locked_world f = Inl msg \<longrightarrow>
      parse_terraform_file locked_world f =
        ([], locked_world\<lparr>stdout := stdout locked_world @ [error_line f msg]\<rparr>)"
    by (rule conjunct2 [OF conjunct2])
  with rd have c: "parse_terraform_file locked_world ''infra/locked.tf'' =
     ([], locked_world\<lparr>stdout :=
        [''Error parsing file infra/locked.tf: [Errno 13] Permission denied'']\<rparr>)"
    by (simp add: out error_line_def)
  from a b c show ?thesis by (intro conjI)
qed

theorem extraction_repeatable_witness:
  "map resource_id (fst (parse_terraform_file
      (snd (parse_terraform_file demo_world ''infra/main.tf'')) ''infra/main.tf'')) =
   [''aws_s3_bucket.logs'', ''module.vpc'']"
  by (simp only: extraction_repeatable [of demo_world "''infra/main.tf''"] demo_main_records)
    simp

lemma variables_hcl_matches:
  "finditer resource_pattern variables_hcl = []" "finditer module_pattern variables_hcl = []"
  by code_simp+

theorem empty_input_witness:
  "parse_terraform_file bare_world ''infra/variables.hcl'' = ([], bare_world) \<and>
   analyze_terraform_project bare_world ''infra'' =
      \<lparr>project_resources = \<lparr>resources = [], resource_count = 0, resource_types = Map.empty\<rparr>,
       returned = {}, world_after = bare_world\<rparr>"
proof -
  note t = empty_input [of bare_world "''infra/variables.hcl''" variables_hcl "''infra''"]
  have rd: "read_file bare_world ''infra/variables.hcl'' = Inr variables_hcl"
    by (simp add: bare_world_def)
  have gl: "glob bare_world pattern = []" for pattern
    by (simp add: bare_world_def)
  from t rd variables_hcl_matches
  have a: "parse_terraform_file bare_world ''infra/variables.hcl'' = ([], bare_world)"
    by blast
  from t gl
  have b: "analyze_terraform_project bare_world ''infra'' =
      \<lparr>project_resources = \<lparr>resources = [], resource_count = 0, resource_types = Map.empty\<rparr>,
       returned = {}, world_after = bare_world\<rparr>"
    by blast
  from a b show ?thesis by (intro conjI)
qed

lemma finditer_split_at:
  assumes reach: "\<forall>m\<in>set (finditer p (pre @ s)).
      span_start m < length pre \<longrightarrow> span_end m \<le> length pre"
    and hit: "match_items p s = Some (gs, r)"
  shows "\<exists>ms1 ms2. finditer p (pre @ s) =
      ms1 @ \<lparr>span_start = length pre, span_end = length pre + (length s - length r), groups = gs\<rparr> # ms2 \<and>
      (\<forall>m\<in>set ms1. span_start m < length pre) \<and> (\<forall>m\<in>set ms2. length pre < span_start m)"
proof -
  from finditer_from_reach [of p 0 pre s] reach obtain ms where
    ms: "finditer p (pre @ s) = ms @ finditer_from p (length pre) s"
      "\<forall>m\<in>set ms. span_start m < length pre"
    by (auto simp: finditer_def)
  from finditer_from_head [OF hit, of "length pre"] obtain ms' where
    ms': "finditer_from p (length pre) s =
        \<lparr>span_start = length pre, span_end = length pre + (length s - length r), groups = gs\<rparr> # ms'"
      "\<forall>m\<in>set ms'. length pre < span_start m"
    by blast
  from ms ms' show ?thesis by auto
qed

lemma quoted_append: "quoted s @ t = dquote # s @ dquote # t"
  by (simp add: quoted_def)

lemma resource_record:
  "resource_of_match path \<lparr>span_start = a, span_end = b, groups = [T, N]\<rparr> =
     Inr \<lparr>resource_type = T, resource_name = N, resource_id = T @ ''.'' @ N,
          file_path = path, is_module = False, module_source = None\<rparr>"
  by (simp add: resource_of_match_def group_def)


lemma parse_terraform_file_records:
  "read_file w path = Inr content \<Longrightarrow>
   parse_terraform_file w path =
     (map (\<lambda>m. projr (resource_of_match path m)) (finditer resource_pattern content) @
      map (\<lambda>m. projr (module_of_match path m)) (finditer module_pattern content), w)"
  by (simp add: parse_terraform_file_readable extract_records_eq)

text \<open>
  C7. Where the keyword \<open>resource\<close> and one quoted token are not followed by a second
  quoted token (after the token and any whitespace the text ends or goes on with
  another character than a double quote), no match starts at that keyword, so no record
  comes from it; and the file is parsed without an error: one record for each match of
  the rest of the text, and nothing printed.
\<close>

theorem malformed_resource_skipped:
  assumes "\<forall>c\<in>set w1. is_space c" and "dquote \<notin> set T"
    and "case dropWhile is_space rest of [] \<Rightarrow> True | c # cs \<Rightarrow> c \<noteq> dquote"
    and "content = pre @ ''resource'' @ w1 @ quoted T @ rest"
  shows "(\<forall>m\<in>set (finditer resource_pattern content). span_start m \<noteq> length pre) \<and>
    (read_file w path = Inr content \<longrightarrow>
      parse_terraform_file w path =
        (map (\<lambda>m. projr (resource_of_match path m)) (finditer resource_pattern content) @
         map (\<lambda>m. projr (module_of_match path m)) (finditer module_pattern content), w))"
proof -
  have "match_items resource_pattern (''resource'' @ w1 @ quoted T @ rest) = None"
    using resource_no_match [OF assms(1-3)] by (simp add: quoted_append)
  from finditer_no_match_at [OF this, of pre] show ?thesis
    by (simp add: assms(4) parse_terraform_file_records)
qed

lemma one_file_world_read: "read_file (one_file_world content) ''infra/main.tf'' = Inr content"
  by (simp add: one_file_world_def)

lemma malformed_tf_resources:
  "finditer resource_pattern malformed_tf =
     [\<lparr>span_start = 28, span_end = 59, groups = [''aws_s3_bucket'', ''data'']\<rparr>]"
  by code_simp

lemma malformed_tf_modules: "finditer module_pattern malformed_tf = []"
  by code_simp

theorem malformed_resource_skipped_witness:
  "list_all (\<lambda>m. span_start m \<noteq> 0) (finditer resource_pattern malformed_tf) \<and>
   map span_start (finditer resource_pattern malformed_tf) = [28] \<and>
   parse_terraform_file (one_file_world malformed_tf) ''infra/main.tf'' =
     ([\<lparr>resource_type = ''aws_s3_bucket'', resource_name = ''data'',
        resource_id = ''aws_s3_bucket.data'', file_path = ''infra/main.tf'',
        is_module = False, module_source = None\<rparr>], one_file_world malformed_tf)"
proof -
  have sp: "\<forall>c\<in>set '' ''. is_space c" by (simp add: is_space_def)
  have nq: "dquote \<notin> set ''aws_s3_bucket''" by (simp add: dquote_def)
  have nx: "case dropWhile is_space ('' {}'' @ [newline] @ data_tf) of [] \<Rightarrow> True | c # cs \<Rightarrow> c \<noteq> dquote"
    by code_simp
  have tx: "malformed_tf = [] @ ''resource'' @ '' '' @ quoted ''aws_s3_bucket'' @ ('' {}'' @ [newline] @ data_tf)"
    by (simp add: malformed_tf_def)
  note t = malformed_resource_skipped [OF sp nq nx tx, of "one_file_world malformed_tf" "''infra/main.tf''"]
  from t have "\<forall>m\<in>set (finditer resource_pattern malformed_tf). span_start m \<noteq> length ([] :: string)"
    by (rule conjunct1)
  then have a: "list_all (\<lambda>m. span_start m \<noteq> 0) (finditer resource_pattern malformed_tf)"
    by (simp only: list_all_iff list.size)
  have b: "map span_start (finditer resource_pattern malformed_tf) = [28]"
    by (simp add: malformed_tf_resources)
  from t one_file_world_read have "parse_terraform_file (one_file_world malformed_tf) ''infra/main.tf'' =
        (map (\<lambda>m. projr (resource_of_match ''infra/main.tf'' m)) (finditer resource_pattern malformed_tf) @
         map (\<lambda>m. projr (module_of_match ''infra/main.tf'' m)) (finditer module_pattern malformed_tf),
         one_file_world malformed_tf)"
    by blast
  then have c: "parse_terraform_file (one_file_world malformed_tf) ''infra/main.tf'' =
     ([\<lparr>resource_type = ''aws_s3_bucket'', resource_name = ''data'',
        resource_id = ''aws_s3_bucket.data'', file_path = ''infra/main.tf'',
        is_module = False, module_source = None\<rparr>], one_file_world malformed_tf)"
    by (simp add: malformed_tf_resources malformed_tf_modules resource_record)
  from a b c show ?thesis by (intro conjI)
qed

text \<open>
  C3 does not hold for every text that contains a well-formed declaration. In
  \<open>swallowed_tf\<close> the declaration of the bucket \<open>logs\<close> follows a declaration whose name
  lacks its closing quote; the earlier match runs up to the quote that opens the
  bucket's type, and the only record is the earlier one.
\<close>

theorem declaration_swallowed:
  "fst (parse_terraform_file (one_file_world swallowed_tf) ''infra/main.tf'') =
     [\<lparr>resource_type = ''aws_instance'', resource_name = ''web'' @ [newline] @ ''resource '',
       resource_id = ''aws_instance.web'' @ [newline] @ ''resource '',
       file_path = ''infra/main.tf'', is_module = False, module_source = None\<rparr>]"
  by code_simp

text \<open>
  C3, amended. A declaration \<open>resource "T" "N"\<close>, with one or more whitespace characters
  between the keyword and the tokens, that no earlier match of the resource pattern runs
  into (so any declaration at the start of the text) yields exactly one match at its
  place and one record for it, with type \<open>T\<close>, name \<open>N\<close> and identifier \<open>T.N\<close>,
  whatever text follows the second token.
\<close>

theorem resource_declaration_record:
  assumes "w1 \<noteq> []" "\<forall>c\<in>set w1. is_space c" "T \<noteq> []" "dquote \<notin> set T"
    and "w2 \<noteq> []" "\<forall>c\<in>set w2. is_space c" "N \<noteq> []" "dquote \<notin> set N"
    and content: "content = pre @ ''resource'' @ w1 @ quoted T @ w2 @ quoted N @ rest"
    and reach: "\<forall>m\<in>set (finditer resource_pattern content).
      span_start m < length pre \<longrightarrow> span_end m \<le> length pre"
    and rd: "read_file w path = Inr content"
  shows "\<exists>ms1 ms2.
    finditer resource_pattern content =
      ms1 @ \<lparr>span_start = length pre,
             span_end = length pre + length (''resource'' @ w1 @ quoted T @ w2 @ quoted N),
             groups = [T, N]\<rparr> # ms2 \<and>
    (\<forall>m\<in>set ms1. span_start m < length pre) \<and>
    (\<forall>m\<in>set ms2. length pre < span_start m) \<and>
    fst (parse_terraform_file w path) =
      map (\<lambda>m. projr (resource_of_match path m)) ms1 @
      \<lparr>resource_type = T, resource_name = N, resource_id = T @ ''.'' @ N,
       file_path = path, is_module = False, module_source = None\<rparr> #
      map (\<lambda>m. projr (resource_of_match path m)) ms2 @
      map (\<lambda>m. projr (module_of_match path m)) (finditer module_pattern content)"
proof -
  let ?s = "''resource'' @ w1 @ quoted T @ w2 @ quoted N @ rest"
  have hit: "match_items resource_pattern ?s = Some ([T, N], rest)"
    using resource_match [OF assms(1-8)] by (simp add: quoted_append)
  have c: "content = pre @ ?s" by (simp add: content)
  from finditer_split_at [OF reach [unfolded c] hit] obtain ms1 ms2 where
    ms: "finditer resource_pattern content =
        ms1 @ \<lparr>span_start = length pre, span_end = length pre + (length ?s - length rest),
          groups = [T, N]\<rparr> # ms2"
      "\<forall>m\<in>set ms1. span_start m < length pre" "\<forall>m\<in>set ms2. length pre < span_start m"
    unfolding c by blast
  have len: "length ?s - length rest = length (''resource'' @ w1 @ quoted T @ w2 @ quoted N)"
    by simp
  have "fst (parse_terraform_file w path) =
      map (\<lambda>m. projr (resource_of_match path m)) ms1 @
      \<lparr>resource_type = T, resource_name = N, resource_id = T @ ''.'' @ N,
       file_path = path, is_module = False, module_source = None\<rparr> #
      map (\<lambda>m. projr (resource_of_match path m)) ms2 @
      map (\<lambda>m. projr (module_of_match path m)) (finditer module_pattern content)"
    by (simp add: parse_terraform_file_records [OF rd] ms(1) resource_record)
  with ms show ?thesis unfolding len by blast
qed

lemma stacked_tf_resources:
  "finditer resource_pattern stacked_tf =
     [\<lparr>span_start = 0, span_end = 31, groups = [''aws_s3_bucket'', ''logs'']\<rparr>,
      \<lparr>span_start = 93, span_end = 124, groups = [''aws_s3_bucket'', ''data'']\<rparr>]"
  by code_simp

lemma length_main_tf: "length main_tf = 92"
  by code_simp

theorem resource_declaration_record_witness:
  "\<exists>ms1 ms2.
    finditer resource_pattern stacked_tf =
      ms1 @ \<lparr>span_start = length (main_tf @ [newline]),
             span_end = length (main_tf @ [newline]) +
               length (''resource'' @ '' '' @ quoted ''aws_s3_bucket'' @ '' '' @ quoted ''data''),
             groups = [''aws_s3_bucket'', ''data'']\<rparr> # ms2 \<and>
    (\<forall>m\<in>set ms1. span_start m < length (main_tf @ [newline])) \<and>
    (\<forall>m\<in>set ms2. length (main_tf @ [newline]) < span_start m) \<and>
    fst (parse_terraform_file (one_file_world stacked_tf) ''infra/main.tf'') =
      map (\<lambda>m. projr (resource_of_match ''infra/main.tf'' m)) ms1 @
      \<lparr>resource_type = ''aws_s3_bucket'', resource_name = ''data'',
       resource_id = ''aws_s3_bucket'' @ ''.'' @ ''data'',
       file_path = ''infra/main.tf'', is_module = False, module_source = None\<rparr> #
      map (\<lambda>m. projr (resource_of_match ''infra/main.tf'' m)) ms2 @
      map (\<lambda>m. projr (module_of_match ''infra/main.tf'' m)) (finditer module_pattern stacked_tf)"
proof -
  have ne: "'' '' \<noteq> []" "''aws_s3_bucket'' \<noteq> []" "''data'' \<noteq> []" by simp_all
  have sp: "\<forall>c\<in>set '' ''. is_space c" by (simp add: is_space_def)
  have nq: "dquote \<notin> set ''aws_s3_bucket''" "dquote \<notin> set ''data''"
    by (simp_all add: dquote_def)
  have tx: "stacked_tf = (main_tf @ [newline]) @ ''resource'' @ '' '' @ quoted ''aws_s3_bucket'' @ '' '' @
      quoted ''data'' @ '' {}''"
    by (simp add: stacked_tf_def data_tf_def)
  have reach: "\<forall>m\<in>set (finditer resource_pattern stacked_tf).
      span_start m < length (main_tf @ [newline]) \<longrightarrow> span_end m \<le> length (main_tf @ [newline])"
    by (simp add: stacked_tf_resources length_main_tf)
  show ?thesis
    by (rule resource_declaration_record
        [OF ne(1) sp ne(2) nq(1) ne(1) sp ne(3) nq(2) tx reach one_file_world_read])
qed


















text \<open>
  C10 does not hold for every module block written without the whitespace. In
  \<open>tags_source_tf\<close> the source of the module \<open>vpc\<close> is written \<open>source="..."\<close>, and a
  nested block before the first closing brace has a source line written with whitespace:
  the pattern matches at the module with that line, and the block yields a record.
\<close>

theorem unspaced_block_recorded:
  "fst (parse_terraform_file (one_file_world tags_source_tf) ''infra/main.tf'') =
     [\<lparr>resource_type = ''terraform'', resource_name = ''vpc'', resource_id = ''module.vpc'',
       file_path = ''infra/main.tf'', is_module = True,
       module_source = Some ''terraform''\<rparr>]"
  by code_simp

text \<open>
  C10, amended. A source assignment is recognised exactly when at least one whitespace
  character stands between \<open>source\<close> and the equals sign and between the equals sign and
  the opening quote. A module block whose source assignment lacks either, and in which no
  other source assignment starts up to the first closing brace, yields no match at the
  module's place, so no record, though the declaration is well formed otherwise.
\<close>

theorem unspaced_source_ignored:
  assumes "\<forall>c\<in>set w3. is_space c" "\<forall>c\<in>set w4. is_space c" "S \<noteq> []" "dquote \<notin> set S"
    and "w1 \<noteq> []" "\<forall>c\<in>set w1. is_space c" "N \<noteq> []" "dquote \<notin> set N"
    and "w2 \<noteq> []" "\<forall>c\<in>set w2. is_space c"
    and body: "body = b1 @ ''source'' @ w3 @ ''='' @ w4 @ quoted S @ rest"
    and others: "\<forall>j. j \<le> run_length (NotChar (CHR ''}'')) body \<and> j \<noteq> length b1 \<longrightarrow>
      match_items source_assignment (drop j body) = None"
    and content: "content = pre @ ''module'' @ w1 @ quoted N @ w2 @ ''{'' @ body"
  shows "((match_items source_assignment (''source'' @ w3 @ ''='' @ w4 @ quoted S @ rest) \<noteq> None) =
      (w3 \<noteq> [] \<and> w4 \<noteq> [])) \<and>
    (w3 = [] \<or> w4 = [] \<longrightarrow>
      (\<forall>m\<in>set (finditer module_pattern content). span_start m \<noteq> length pre))"
proof (intro conjI impI)
  show "(match_items source_assignment (''source'' @ w3 @ ''='' @ w4 @ quoted S @ rest) \<noteq> None) =
      (w3 \<noteq> [] \<and> w4 \<noteq> [])"
  proof (cases "w3 = [] \<or> w4 = []")
    case True
    from source_unspaced [OF assms(1,2) True] show ?thesis
      using True by (simp add: quoted_append)
  next
    case False
    then have "w3 \<noteq> []" "w4 \<noteq> []" by simp_all
    from source_match [OF this(1) assms(1) this(2) assms(2,3,4)] False show ?thesis
      by (simp add: quoted_append)
  qed
next
  assume un: "w3 = [] \<or> w4 = []"
  have at: "match_items source_assignment (drop (length b1) body) = None"
    using source_unspaced [OF assms(1,2) un] by (simp add: body quoted_append)
  have "\<forall>j. j \<le> run_length (NotChar (CHR ''}'')) body \<longrightarrow>
      match_items source_assignment (drop j body) = None"
    using at others by metis
  from match_Star_None [OF this] module_head_match [OF assms(5-10), of body]
  have "match_items module_pattern (''module'' @ w1 @ quoted N @ w2 @ ''{'' @ body) = None"
    by (simp add: quoted_append)
  from finditer_no_match_at [OF this, of pre]
  show "\<forall>m\<in>set (finditer module_pattern content). span_start m \<noteq> length pre"
    by (simp add: content)
qed

lemma unspaced_others:
  "\<forall>j\<in>set [0..<41]. j \<noteq> 1 \<longrightarrow> match_items source_assignment (drop j unspaced_body) = None"
  by code_simp

lemma unspaced_run: "run_length (NotChar (CHR ''}'')) unspaced_body = 40"
  by code_simp

lemma unspaced_tf_modules:
  "map groups (finditer module_pattern unspaced_tf) = [[''db'', ''acme/db/aws'']]"
  by code_simp

theorem unspaced_source_ignored_witness:
  "match_items source_assignment
     (''source'' @ [] @ ''='' @ [] @ quoted ''terraform-aws-modules/vpc/aws'' @ ('' }'' @ [newline] @
      ''module '' @ quoted ''db'' @ '' { source = '' @ quoted ''acme/db/aws'' @ '' }'')) = None \<and>
   list_all (\<lambda>m. span_start m \<noteq> 0) (finditer module_pattern unspaced_tf) \<and>
   map groups (finditer module_pattern unspaced_tf) = [[''db'', ''acme/db/aws'']]"
proof -
  have sp0: "\<forall>c\<in>set ([] :: string). is_space c" by simp
  have ne: "'' '' \<noteq> []" "''vpc'' \<noteq> []" "''terraform-aws-modules/vpc/aws'' \<noteq> []" by simp_all
  have sp: "\<forall>c\<in>set '' ''. is_space c" by (simp add: is_space_def)
  have nq: "dquote \<notin> set ''vpc''" "dquote \<notin> set ''terraform-aws-modules/vpc/aws''"
    by (simp_all add: dquote_def)
  have body: "unspaced_body = '' '' @ ''source'' @ [] @ ''='' @ [] @
      quoted ''terraform-aws-modules/vpc/aws'' @ ('' }'' @ [newline] @
      ''module '' @ quoted ''db'' @ '' { source = '' @ quoted ''acme/db/aws'' @ '' }'')"
    by (simp add: unspaced_body_def)
  have others: "\<forall>j. j \<le> run_length (NotChar (CHR ''}'')) unspaced_body \<and> j \<noteq> length '' '' \<longrightarrow>
      match_items source_assignment (drop j unspaced_body) = None"
  proof (intro allI impI)
    fix j
    assume a: "j \<le> run_length (NotChar (CHR ''}'')) unspaced_body \<and> j \<noteq> length '' ''"
    then have "j \<in> set [0..<41]"
      unfolding unspaced_run set_upt atLeastLessThan_iff by arith
    with unspaced_others have "j \<noteq> 1 \<longrightarrow> match_items source_assignment (drop j unspaced_body) = None"
      by (rule bspec)
    with a show "match_items source_assignment (drop j unspaced_body) = None" by simp
  qed
  have tx: "unspaced_tf = [] @ ''module'' @ '' '' @ quoted ''vpc'' @ '' '' @ ''{'' @ unspaced_body"
    by (simp add: unspaced_tf_def)
  note t = unspaced_source_ignored [OF sp0 sp0 ne(3) nq(2) ne(1) sp ne(2) nq(1) ne(1) sp body others tx]
  from t have "(match_items source_assignment
     (''source'' @ [] @ ''='' @ [] @ quoted ''terraform-aws-modules/vpc/aws'' @ ('' }'' @ [newline] @
      ''module '' @ quoted ''db'' @ '' { source = '' @ quoted ''acme/db/aws'' @ '' }'')) \<noteq> None) =
      (([] :: string) \<noteq> [] \<and> ([] :: string) \<noteq> [])"
    by (rule conjunct1)
  then have a: "match_items source_assignment
     (''source'' @ [] @ ''='' @ [] @ quoted ''terraform-aws-modules/vpc/aws'' @ ('' }'' @ [newline] @
      ''module '' @ quoted ''db'' @ '' { source = '' @ quoted ''acme/db/aws'' @ '' }'')) = None"
    by blast
  from t have "\<forall>m\<in>set (finditer module_pattern unspaced_tf). span_start m \<noteq> length ([] :: string)"
    by blast
  then have b: "list_all (\<lambda>m. span_start m \<noteq> 0) (finditer module_pattern unspaced_tf)"
    by (simp only: list_all_iff list.size)
  from a b unspaced_tf_modules show ?thesis by (intro conjI)
qed



lemma split_from_not_Nil: "split_from sep cur xs \<noteq> []"
  by (induction xs arbitrary: cur) auto










end
